theory Spec2Isabelle
  imports Complex_Main
begin

section \<open>Tensors and the operations of the tensor engine\<close>

text \<open>
  A tensor is a shape together with its entries in row-major order. The entry type
  \<open>'a\<close> is left open: it stands for the scalar expressions of the tensor graph.
  Layer widths are tensor dimensions and therefore natural numbers.
\<close>

datatype 'a tensor = Tensor (shape: "nat list") (vals: "'a list")

text \<open>
  Failures are values. \<open>IndexError\<close> is Python's error for a list index out of
  range; \<open>ShapeError\<close> stands for the engine's rejection of incompatible shapes
  (reshape, concat, multiply, stack, matmul); \<open>BatchShapeError\<close> for the
  engine's rejection of an uneven \<open>split\<close>.
\<close>

datatype error = IndexError | ShapeError | BatchShapeError

definition bind_err :: "error + 'a \<Rightarrow> ('a \<Rightarrow> error + 'b) \<Rightarrow> error + 'b" where
  "bind_err m f = (case m of Inl e \<Rightarrow> Inl e | Inr x \<Rightarrow> f x)"

text \<open>A list comprehension whose body may raise: the first failure wins.\<close>

fun mapM :: "('a \<Rightarrow> error + 'b) \<Rightarrow> 'a list \<Rightarrow> error + 'b list" where
  "mapM f [] = Inr []"
| "mapM f (x # xs) =
     bind_err (f x) (\<lambda>y. bind_err (mapM f xs) (\<lambda>ys. Inr (y # ys)))"

text \<open>Python's \<open>xs[i]\<close> for a non-negative index.\<close>

definition nth_err :: "'a list \<Rightarrow> nat \<Rightarrow> error + 'a" where
  "nth_err xs i = (if i < length xs then Inr (xs ! i) else Inl IndexError)"

definition wf_tensor :: "'a tensor \<Rightarrow> bool" where
  "wf_tensor t \<longleftrightarrow> length (vals t) = prod_list (shape t)"

text \<open>\<open>tf.reshape(t, shape)\<close>: the number of entries must not change.\<close>

definition tf_reshape :: "'a tensor \<Rightarrow> nat list \<Rightarrow> error + 'a tensor" where
  "tf_reshape t s =
     (if prod_list s = prod_list (shape t) then Inr (Tensor s (vals t)) else Inl ShapeError)"

text \<open>\<open>tf.reshape(t, [-1])\<close>: one dimension holding every entry.\<close>

definition tf_reshape_flat :: "'a tensor \<Rightarrow> 'a tensor" where
  "tf_reshape_flat t = Tensor [prod_list (shape t)] (vals t)"

text \<open>
  \<open>tf.concat(ts, axis=0)\<close>: an empty list is rejected, a single tensor is returned
  as it is, and two or more tensors need rank at least one and equal trailing
  dimensions.
\<close>

definition tf_concat :: "'a tensor list \<Rightarrow> error + 'a tensor" where
  "tf_concat ts =
     (case ts of
        [] \<Rightarrow> Inl ShapeError
      | [t] \<Rightarrow> Inr t
      | t # _ \<Rightarrow>
          if list_all (\<lambda>u. shape u \<noteq> [] \<and> tl (shape u) = tl (shape t)) ts
          then Inr (Tensor (sum_list (map (\<lambda>u. hd (shape u)) ts) # tl (shape t))
                           (concat (map vals ts)))
          else Inl ShapeError)"

text \<open>
  \<open>t[a:b]\<close> on the leading axis: both bounds are clamped to the dimension, an
  empty range gives an empty tensor, and a scalar cannot be sliced.
\<close>

definition tf_slice :: "'a tensor \<Rightarrow> nat \<Rightarrow> nat \<Rightarrow> error + 'a tensor" where
  "tf_slice t a b =
     (case shape t of
        [] \<Rightarrow> Inl ShapeError
      | n # rest \<Rightarrow>
          let lo = min a n; hi = min b n; row = prod_list rest
          in Inr (Tensor ((hi - lo) # rest) (take ((hi - lo) * row) (drop (lo * row) (vals t)))))"

definition tf_identity :: "'a tensor \<Rightarrow> 'a tensor" where
  "tf_identity t = t"

text \<open>\<open>np.cumsum\<close>: running sums.\<close>

fun cumsum_from :: "nat \<Rightarrow> nat list \<Rightarrow> nat list" where
  "cumsum_from acc [] = []"
| "cumsum_from acc (x # xs) = (acc + x) # cumsum_from (acc + x) xs"

definition cumsum :: "nat list \<Rightarrow> nat list" where
  "cumsum xs = cumsum_from 0 xs"

subsection \<open>Differentiation and elementwise arithmetic\<close>

text \<open>
  The differentiation engine is a collaborator of the estimator and is taken as a
  parameter: \<open>partial e x\<close> is the derivative of the scalar expression \<open>e\<close> with
  respect to the scalar expression \<open>x\<close>, and \<open>frozen e\<close> is \<open>e\<close> behind
  \<open>tf.stop_gradient\<close>.
\<close>

record 'a engine =
  partial :: "'a \<Rightarrow> 'a \<Rightarrow> 'a"
  frozen :: "'a \<Rightarrow> 'a"

text \<open>
  \<open>tf.gradients(ys, xs)\<close>: one tensor per entry of \<open>xs\<close>, of the same shape,
  holding the derivatives of the sum of the entries of \<open>ys\<close>. Every entry of
  \<open>xs\<close> gets a gradient tensor: an input that \<open>ys\<close> does not depend on gets the
  derivatives that \<open>partial\<close> gives for it, not a missing value.
\<close>

definition tf_gradients ::
  "('a::monoid_add) engine \<Rightarrow> 'a tensor \<Rightarrow> 'a tensor list \<Rightarrow> 'a tensor list" where
  "tf_gradients tf ys xs =
     map (\<lambda>x. Tensor (shape x) (map (partial tf (sum_list (vals ys))) (vals x))) xs"







subsection \<open>Matrices\<close>



text \<open>\<open>tf.stack\<close>: at least one tensor, all of one shape.\<close>

definition tf_stack :: "'a tensor list \<Rightarrow> error + 'a tensor" where
  "tf_stack ts =
     (case ts of
        [] \<Rightarrow> Inl ShapeError
      | t # _ \<Rightarrow>
          if list_all (\<lambda>u. shape u = shape t) ts
          then Inr (Tensor (length ts # shape t) (concat (map vals ts)))
          else Inl ShapeError)"


text \<open>
  \<open>tf.split(t, k)\<close> with an integer \<open>k\<close>: \<open>k\<close> pieces of equal size along the
  leading axis. The engine wants \<open>k \<ge> 1\<close> and the dimension divisible by \<open>k\<close>.
\<close>

definition tf_split :: "'a tensor \<Rightarrow> nat \<Rightarrow> error + 'a tensor list" where
  "tf_split t k =
     (case shape t of
        [] \<Rightarrow> Inl ShapeError
      | n # rest \<Rightarrow>
          if k = 0 \<or> n mod k \<noteq> 0 then Inl BatchShapeError
          else Inr (map (\<lambda>i. Tensor ((n div k) # rest)
                               (take (n div k * prod_list rest)
                                     (drop (i * (n div k) * prod_list rest) (vals t))))
                        [0..<k]))"

text \<open>
  \<open>tf.transpose\<close> reverses the dimensions: a matrix is transposed and a vector or
  scalar is unchanged. The estimator only transposes a stack of vectors.
\<close>

definition tf_transpose :: "'a tensor \<Rightarrow> 'a tensor" where
  "tf_transpose t =
     (case shape t of
        [m, n] \<Rightarrow> Tensor [n, m] (concat (map (\<lambda>j. map (\<lambda>i. vals t ! (i * n + j)) [0..<m]) [0..<n]))
      | _ \<Rightarrow> t)"

definition tf_matmul :: "('a::{monoid_add,times}) tensor \<Rightarrow> 'a tensor \<Rightarrow> error + 'a tensor" where
  "tf_matmul a b =
     (case (shape a, shape b) of
        ([m, k], [k', n]) \<Rightarrow>
          if k = k'
          then Inr (Tensor [m, n]
                 (concat (map (\<lambda>i. map (\<lambda>j. sum_list (map (\<lambda>l. vals a ! (i * k + l) * vals b ! (l * n + j))
                                                          [0..<k]))
                                       [0..<n])
                              [0..<m])))
          else Inl ShapeError
      | _ \<Rightarrow> Inl ShapeError)"

text \<open>A tensor divided by a Python integer.\<close>

definition tf_div :: "('a::{semiring_1,inverse}) tensor \<Rightarrow> nat \<Rightarrow> 'a tensor" where
  "tf_div t k = Tensor (shape t) (map (\<lambda>x. x / of_nat k) (vals t))"

section \<open>The estimator\<close>

record 'a HessianEstimator =
  layers :: "nat list"
  cost_fun :: "'a tensor \<Rightarrow> 'a tensor \<Rightarrow> 'a tensor list \<Rightarrow> error + 'a tensor"
  cost :: "'a tensor"
  model_fun :: "'a tensor \<Rightarrow> 'a tensor list \<Rightarrow> error + 'a tensor"
  params :: "'a tensor list"
  P :: nat
  X :: "'a tensor"
  y :: "'a tensor"
  batch_size :: nat

text \<open>The parameter count that \<open>__init__\<close> stores in \<open>self.P\<close>.\<close>

definition count_params :: "nat list \<Rightarrow> nat" where
  "count_params ls =
     sum_list (map (\<lambda>l. ls ! l * ls ! (l + 1) + ls ! (l + 1)) [0..<length ls - 1])"

definition init ::
  "nat list \<Rightarrow> ('a tensor \<Rightarrow> 'a tensor \<Rightarrow> 'a tensor list \<Rightarrow> error + 'a tensor) \<Rightarrow> 'a tensor
     \<Rightarrow> ('a tensor \<Rightarrow> 'a tensor list \<Rightarrow> error + 'a tensor) \<Rightarrow> 'a tensor list
     \<Rightarrow> 'a tensor \<Rightarrow> 'a tensor \<Rightarrow> nat \<Rightarrow> 'a HessianEstimator" where
  "init ls cf c mf ps x0 y0 bs =
     \<lparr>layers = ls, cost_fun = cf, cost = c, model_fun = mf, params = ps,
      P = count_params ls, X = x0, y = y0, batch_size = bs\<rparr>"

subsection \<open>The parameter codec\<close>

text \<open>
  In \<open>flatten\<close> the indices into \<open>self.layers\<close> are \<open>l\<close> and \<open>l + 1\<close> for
  \<open>l < len(layers) - 1\<close>, always in range; the indices into \<open>params\<close> may not be.
\<close>

definition flatten :: "'a HessianEstimator \<Rightarrow> 'a tensor list \<Rightarrow> error + 'a tensor" where
  "flatten self ps =
     (let ls = layers self; L = length ls - 1 in
      bind_err (mapM (\<lambda>l. bind_err (nth_err ps l)
                             (\<lambda>t. tf_reshape t [ls ! l * ls ! (l + 1)])) [0..<L]) (\<lambda>ws.
      bind_err (tf_concat ws) (\<lambda>weights.
      bind_err (mapM (\<lambda>l. nth_err ps (l + length ls - 1)) [0..<L]) (\<lambda>bs.
      bind_err (tf_concat bs) (\<lambda>biases.
      tf_concat [weights, biases])))))"

definition flatten_v2 :: "'a HessianEstimator \<Rightarrow> 'a tensor list \<Rightarrow> error + 'a tensor" where
  "flatten_v2 self ps =
     bind_err (mapM (\<lambda>l. bind_err (nth_err ps l) (\<lambda>t. Inr (tf_reshape_flat t)))
                    [0..<length (layers self)])
              tf_concat"

text \<open>
  \<open>np.roll(layers, -1)[:-1]\<close> is \<open>butlast (rotate1 layers)\<close>, and \<open>winds[-1]\<close> is
  \<open>last winds\<close> (\<open>winds\<close> starts with 0 and is never empty). \<open>winds\<close> and
  \<open>binds\<close> have \<open>len(layers)\<close> entries when \<open>layers\<close> is not empty, so the indices
  \<open>l\<close> and \<open>l + 1\<close> are in range.
\<close>

definition winds_of :: "nat list \<Rightarrow> nat list" where
  "winds_of ls = cumsum (0 # map2 (*) (butlast (rotate1 ls)) (butlast ls))"

definition binds_of :: "nat list \<Rightarrow> nat list" where
  "binds_of ls = last (winds_of ls) # map (\<lambda>c. last (winds_of ls) + c) (cumsum (tl ls))"

definition unflatten :: "'a HessianEstimator \<Rightarrow> 'a tensor \<Rightarrow> error + 'a tensor list" where
  "unflatten self params_flat =
     (let ls = layers self; L = length ls - 1;
          winds = winds_of ls in
      bind_err (mapM (\<lambda>l. bind_err (tf_slice params_flat (winds ! l) (winds ! (l + 1)))
                             (\<lambda>s. tf_reshape s [ls ! l, ls ! (l + 1)])) [0..<L]) (\<lambda>weights.
      let binds = binds_of ls in
      bind_err (mapM (\<lambda>l. bind_err (tf_slice params_flat (binds ! l) (binds ! (l + 1)))
                             (\<lambda>s. tf_reshape s [ls ! (l + 1)])) [0..<L]) (\<lambda>biases.
      Inr (weights @ biases))))"

subsection \<open>Hessian-vector products, the full Hessian and the OPG approximation\<close>



text \<open>The per-example copies of the parameters that \<open>get_G_op\<close> starts with.\<close>

definition ex_params_of :: "'a HessianEstimator \<Rightarrow> error + 'a tensor list list" where
  "ex_params_of self =
     mapM (\<lambda>ex. mapM (\<lambda>l. bind_err (nth_err (params self) l) (\<lambda>t. Inr (tf_identity t)))
                      [0..<length (layers self)])
          [0..<batch_size self]"

text \<open>The stacked per-example gradients, \<open>ex_grads\<close> in \<open>get_G_op\<close>.\<close>

definition ex_grads_of ::
  "('a::{monoid_add,times}) engine \<Rightarrow> 'a HessianEstimator \<Rightarrow> error + 'a tensor" where
  "ex_grads_of tf self =
     bind_err (ex_params_of self) (\<lambda>ex_params.
     bind_err (tf_split (X self) (batch_size self)) (\<lambda>ex_X.
     bind_err (tf_split (y self) (batch_size self)) (\<lambda>ex_y.
     bind_err (mapM (\<lambda>(x, ps). model_fun self x ps) (zip ex_X ex_params)) (\<lambda>ex_yhat_logits.
     bind_err (mapM (\<lambda>(y0, yhat, ps). cost_fun self y0 yhat ps)
                    (zip ex_y (zip ex_yhat_logits ex_params))) (\<lambda>ex_cost.
     bind_err (mapM (\<lambda>ex. bind_err (nth_err ex_cost ex) (\<lambda>c.
                           bind_err (nth_err ex_params ex) (\<lambda>ps.
                           flatten self (tf_gradients tf c ps))))
                    [0..<batch_size self])
              tf_stack)))))"

definition get_G_op ::
  "('a::field) engine \<Rightarrow> 'a HessianEstimator \<Rightarrow> error + 'a tensor" where
  "get_G_op tf self =
     bind_err (ex_grads_of tf self) (\<lambda>ex_grads.
     bind_err (tf_matmul (tf_transpose ex_grads) ex_grads) (\<lambda>m.
     Inr (tf_div m (batch_size self))))"

text \<open>
  A parameter list conforms to the layer schema when it holds the \<open>L\<close> weight tensors
  of shape \<open>(layers[l], layers[l+1])\<close> followed by the \<open>L\<close> bias vectors of shape
  \<open>(layers[l+1],)\<close>, each with as many entries as its shape says.
\<close>

definition conforming :: "nat list \<Rightarrow> 'a tensor list \<Rightarrow> bool" where
  "conforming ls ps \<longleftrightarrow>
     length ps = 2 * (length ls - 1) \<and>
     list_all (\<lambda>l. shape (ps ! l) = [ls ! l, ls ! (l + 1)] \<and> wf_tensor (ps ! l))
              [0..<length ls - 1] \<and>
     list_all (\<lambda>l. shape (ps ! (l + (length ls - 1))) = [ls ! (l + 1)]
                    \<and> wf_tensor (ps ! (l + (length ls - 1))))
              [0..<length ls - 1]"

subsection \<open>Segment sizes and segments of a flat vector\<close>

text \<open>
  Names for what \<open>unflatten\<close> computes on the way: the sizes of the weight
  segments, one slice-and-reshape step, and the lists of tensors cut out of a flat
  list of entries.
\<close>

definition wsizes :: "nat list \<Rightarrow> nat list" where
  "wsizes ls = map2 (*) (tl ls) (butlast ls)"

definition segment :: "'a tensor \<Rightarrow> nat \<Rightarrow> nat \<Rightarrow> nat list \<Rightarrow> error + 'a tensor" where
  "segment t a b s = bind_err (tf_slice t a b) (\<lambda>u. tf_reshape u s)"

definition weight_segments :: "nat list \<Rightarrow> 'a list \<Rightarrow> 'a tensor list" where
  "weight_segments ls xs =
     map (\<lambda>l. Tensor [ls ! l, ls ! (l + 1)]
                 (take (winds_of ls ! Suc l - winds_of ls ! l) (drop (winds_of ls ! l) xs)))
         [0..<length ls - 1]"

definition bias_segments :: "nat list \<Rightarrow> 'a list \<Rightarrow> 'a tensor list" where
  "bias_segments ls xs =
     map (\<lambda>l. Tensor [ls ! (l + 1)]
                 (take (binds_of ls ! Suc l - binds_of ls ! l) (drop (binds_of ls ! l) xs)))
         [0..<length ls - 1]"

subsection \<open>A two-layer schema with thirteen parameters\<close>

definition params_231 :: "int tensor list" where
  "params_231 =
     [Tensor [2, 3] [1, 2, 3, 4, 5, 6], Tensor [3, 1] [7, 8, 9],
      Tensor [3] [10, 11, 12], Tensor [1] [13]]"

definition estimator_231 :: "int HessianEstimator" where
  "estimator_231 =
     init [2, 3, 1] (\<lambda>y0 yhat ps. Inr yhat) (Tensor [] [0]) (\<lambda>x ps. Inr x) params_231
          (Tensor [1, 2] [1, 1]) (Tensor [1, 1] [0]) 1"

subsection \<open>The Hessian and its product with a vector\<close>



subsection \<open>Quadratic expressions in a weight and a bias\<close>

text \<open>
  Scalar expressions for a schema with one weight \<open>w\<close> and one bias \<open>b\<close>:
  polynomials \<open>c + a1 w + a2 b + a11 w\<^sup>2 + a12 w b + a22 b\<^sup>2\<close> with integer
  coefficients, products cut off above degree two. Their derivatives are exact, and
  freezing an expression keeps its constant.
\<close>

datatype quad = Quad int int int int int int

instantiation quad :: "{monoid_add, times, one}"
begin

definition zero_quad :: quad where
  "zero_quad = Quad 0 0 0 0 0 0"

definition one_quad :: quad where
  "one_quad = Quad 1 0 0 0 0 0"

fun plus_quad :: "quad \<Rightarrow> quad \<Rightarrow> quad" where
  "plus_quad (Quad c a1 a2 a11 a12 a22) (Quad d b1 b2 b11 b12 b22) =
     Quad (c + d) (a1 + b1) (a2 + b2) (a11 + b11) (a12 + b12) (a22 + b22)"

fun times_quad :: "quad \<Rightarrow> quad \<Rightarrow> quad" where
  "times_quad (Quad c a1 a2 a11 a12 a22) (Quad d b1 b2 b11 b12 b22) =
     Quad (c * d) (c * b1 + a1 * d) (c * b2 + a2 * d)
          (c * b11 + a11 * d + a1 * b1)
          (c * b12 + a12 * d + a1 * b2 + a2 * b1)
          (c * b22 + a22 * d + a2 * b2)"

instance
proof
  fix a b c :: quad
  show "a + b + c = a + (b + c)"
    by (cases a; cases b; cases c) simp
  show "0 + a = a" by (cases a) (simp add: zero_quad_def)
  show "a + 0 = a" by (cases a) (simp add: zero_quad_def)
qed

end




definition var_w :: quad where "var_w = Quad 0 1 0 0 0 0"
definition var_b :: quad where "var_b = Quad 0 0 1 0 0 0"


definition estimator_11 :: "quad HessianEstimator" where
  "estimator_11 =
     init [1, 1] (\<lambda>y0 yhat ps. Inr yhat) (Tensor [] [Quad 0 0 0 1 2 1]) (\<lambda>x ps. Inr x)
          [Tensor [1, 1] [var_w], Tensor [1] [var_b]]
          (Tensor [1, 1] [1]) (Tensor [1, 1] [0]) 1"

subsection \<open>A numeric estimator for the OPG approximation\<close>

definition scaling_engine :: "real engine" where
  "scaling_engine = \<lparr>partial = (\<lambda>e x. e * x), frozen = (\<lambda>e. e)\<rparr>"


subsection \<open>Standard basis vectors\<close>


subsection \<open>A numeric estimator on the two-layer schema\<close>

definition opg_estimator_231 :: "real HessianEstimator" where
  "opg_estimator_231 =
     init [2, 3, 1] (\<lambda>y0 yhat ps. Inr yhat) (Tensor [] [0]) (\<lambda>x ps. Inr x)
          [Tensor [2, 3] [1, 2, 3, 4, 5, 6], Tensor [3, 1] [7, 8, 9],
           Tensor [3] [10, 11, 12], Tensor [1] [13]]
          (Tensor [1, 2] [1, 1]) (Tensor [1, 1] [0]) 1"

section \<open>Properties of the engine operations and of the offsets\<close>

lemma bind_err_simps [simp]:
  "bind_err (Inr x) f = f x" "bind_err (Inl e) f = Inl e"
  by (simp_all add: bind_err_def)

lemma mapM_Inr:
  "(\<And>x. x \<in> set xs \<Longrightarrow> f x = Inr (g x)) \<Longrightarrow> mapM f xs = Inr (map g xs)"
  by (induction xs) simp_all

lemma cumsum_from_length [simp]: "length (cumsum_from a xs) = length xs"
  by (induction xs arbitrary: a) simp_all

lemma cumsum_from_nth:
  "i < length xs \<Longrightarrow> cumsum_from a xs ! i = a + sum_list (take (Suc i) xs)"
proof (induction xs arbitrary: a i)
  case Nil
  then show ?case by simp
next
  case (Cons x xs)
  then show ?case by (cases i) (simp_all add: add.assoc)
qed

lemma cumsum_length [simp]: "length (cumsum xs) = length xs"
  by (simp add: cumsum_def)

lemma cumsum_nth: "i < length xs \<Longrightarrow> cumsum xs ! i = sum_list (take (Suc i) xs)"
  by (simp add: cumsum_def cumsum_from_nth)

lemma cumsum_zero_nth: "i \<le> length xs \<Longrightarrow> cumsum (0 # xs) ! i = sum_list (take i xs)"
  by (simp add: cumsum_nth)

lemma butlast_rotate1: "butlast (rotate1 xs) = tl xs"
  by (cases xs) simp_all

lemma wsizes_length [simp]: "length (wsizes ls) = length ls - 1"
  by (simp add: wsizes_def)

lemma wsizes_nth: "l < length ls - 1 \<Longrightarrow> wsizes ls ! l = ls ! l * ls ! (l + 1)"
  by (simp add: wsizes_def nth_tl nth_butlast mult.commute)

lemma winds_of_length [simp]: "length (winds_of ls) = Suc (length ls - 1)"
  by (simp add: winds_of_def butlast_rotate1)

lemma winds_of_nth: "l \<le> length ls - 1 \<Longrightarrow> winds_of ls ! l = sum_list (take l (wsizes ls))"
  by (simp add: winds_of_def butlast_rotate1 cumsum_zero_nth wsizes_def)

lemma last_winds_of: "last (winds_of ls) = sum_list (wsizes ls)"
proof -
  have "last (winds_of ls) = winds_of ls ! (length ls - 1)"
    by (subst last_conv_nth) (auto simp: winds_of_def cumsum_def)
  then show ?thesis by (simp add: winds_of_nth)
qed

lemma binds_of_nth:
  "l \<le> length ls - 1 \<Longrightarrow> binds_of ls ! l = sum_list (wsizes ls) + sum_list (take l (tl ls))"
  by (cases l) (simp_all add: binds_of_def last_winds_of cumsum_nth)

lemma count_params_split: "count_params ls = sum_list (wsizes ls) + sum_list (tl ls)"
proof -
  have a: "wsizes ls = map (\<lambda>l. ls ! l * ls ! (l + 1)) [0..<length ls - 1]"
    by (rule nth_equalityI) (simp_all add: wsizes_nth)
  have b: "tl ls = map (\<lambda>l. ls ! (l + 1)) [0..<length ls - 1]"
    by (rule nth_equalityI) (simp_all add: nth_tl)
  show ?thesis
    unfolding count_params_def
    by (subst a, subst b) (simp add: sum_list_addf)
qed

lemma drop_concat_prefix:
  "l \<le> length xss \<Longrightarrow>
   drop (sum_list (map length (take l xss))) (concat xss) = concat (drop l xss)"
proof (induction xss arbitrary: l)
  case Nil
  then show ?case by simp
next
  case (Cons xs xss)
  then show ?case by (cases l) simp_all
qed

lemma segment_of_concat:
  assumes "l < length xss"
  shows "take (length (xss ! l)) (drop (sum_list (map length (take l xss))) (concat xss)) = xss ! l"
proof -
  have "drop (sum_list (map length (take l xss))) (concat xss) = concat (drop l xss)"
    using assms by (simp add: drop_concat_prefix)
  also have "\<dots> = xss ! l @ concat (drop (Suc l) xss)"
    using assms by (simp flip: Cons_nth_drop_Suc)
  finally show ?thesis by simp
qed


lemma sum_take_Suc:
  "l < length (xs::nat list) \<Longrightarrow> sum_list (take (Suc l) xs) = sum_list (take l xs) + xs ! l"
  by (simp add: take_Suc_conv_app_nth)

lemma tf_slice_vector:
  "a \<le> b \<Longrightarrow> b \<le> n \<Longrightarrow>
   tf_slice (Tensor [n] xs) a b = Inr (Tensor [b - a] (take (b - a) (drop a xs)))"
  by (simp add: tf_slice_def Let_def min_def)

lemma conformingD:
  assumes "conforming ls ps"
  shows "length ps = 2 * (length ls - 1)"
    and "\<And>l. l < length ls - 1 \<Longrightarrow> shape (ps ! l) = [ls ! l, ls ! (l + 1)]"
    and "\<And>l. l < length ls - 1 \<Longrightarrow> length (vals (ps ! l)) = ls ! l * ls ! (l + 1)"
    and "\<And>l. l < length ls - 1 \<Longrightarrow> shape (ps ! (l + (length ls - 1))) = [ls ! (l + 1)]"
    and "\<And>l. l < length ls - 1 \<Longrightarrow> length (vals (ps ! (l + (length ls - 1)))) = ls ! (l + 1)"
  using assms by (auto simp: conforming_def list_all_iff wf_tensor_def)

lemma conforming_lengths:
  assumes "conforming ls ps"
  shows "map (\<lambda>t. length (vals t)) ps = wsizes ls @ tl ls"
proof (rule nth_equalityI)
  show "length (map (\<lambda>t. length (vals t)) ps) = length (wsizes ls @ tl ls)"
    using conformingD(1)[OF assms] by simp
next
  fix i assume "i < length (map (\<lambda>t. length (vals t)) ps)"
  then have i: "i < 2 * (length ls - 1)" using conformingD(1)[OF assms] by simp
  define n where "n = length ls - 1"
  show "map (\<lambda>t. length (vals t)) ps ! i = (wsizes ls @ tl ls) ! i"
  proof (cases "i < n")
    case True
    then show ?thesis
      using i conformingD(1,3)[OF assms] by (simp add: nth_append wsizes_nth n_def)
  next
    case False
    then have l: "i = (i - n) + n" "i - n < n"
      using i by (simp_all add: n_def)
    have "length (vals (ps ! ((i - n) + n))) = ls ! ((i - n) + 1)"
      using conformingD(5)[OF assms, of "i - n"] l(2) by (simp only: n_def)
    then have "length (vals (ps ! i)) = ls ! ((i - n) + 1)"
      using l(1) by simp
    moreover have "(wsizes ls @ tl ls) ! i = tl ls ! (i - n)"
      using False by (simp add: nth_append n_def)
    moreover have "tl ls ! (i - n) = ls ! ((i - n) + 1)"
      using l(2) by (simp add: nth_tl n_def)
    ultimately show ?thesis
      using i conformingD(1)[OF assms] by simp
  qed
qed

lemma tf_concat_vectors:
  assumes "ts \<noteq> []" and "\<And>t. t \<in> set ts \<Longrightarrow> \<exists>n. shape t = [n]"
  shows "tf_concat ts = Inr (Tensor [sum_list (map (\<lambda>u. hd (shape u)) ts)] (concat (map vals ts)))"
proof (cases ts)
  case Nil
  with assms(1) show ?thesis by simp
next
  case (Cons t us)
  show ?thesis
  proof (cases us)
    case Nil
    obtain n where "shape t = [n]" using assms(2)[of t] Cons by auto
    then show ?thesis using Cons Nil by (cases t) (simp add: tf_concat_def)
  next
    case (Cons u vs)
    have "list_all (\<lambda>u. shape u \<noteq> [] \<and> tl (shape u) = tl (shape t)) ts"
      unfolding list_all_iff
    proof
      fix w assume "w \<in> set ts"
      then obtain n where "shape w = [n]" using assms(2) by blast
      moreover obtain m where "shape t = [m]" using assms(2)[of t] \<open>ts = t # us\<close> by auto
      ultimately show "shape w \<noteq> [] \<and> tl (shape w) = tl (shape t)" by simp
    qed
    moreover obtain m where "shape t = [m]" using assms(2)[of t] \<open>ts = t # us\<close> by auto
    ultimately show ?thesis
      using \<open>ts = t # us\<close> Cons by (simp add: tf_concat_def)
  qed
qed

lemma map_nth_take:
  "n \<le> length xs \<Longrightarrow> map (\<lambda>l. f (xs ! l)) [0..<n] = map f (take n xs)"
  by (rule nth_equalityI) simp_all

lemma map_nth_drop:
  "k + n \<le> length xs \<Longrightarrow> map (\<lambda>l. f (xs ! (l + k))) [0..<n] = map f (take n (drop k xs))"
  by (rule nth_equalityI) (simp_all add: add.commute)

lemma flatten_conforming:
  assumes c: "conforming (layers self) ps" and L: "2 \<le> length (layers self)"
  shows "flatten self ps = Inr (Tensor [count_params (layers self)] (concat (map vals ps)))"
proof -
  define ls where "ls = layers self"
  define n where "n = length ls - 1"
  have n: "0 < n" "length ls - 1 = n" using L by (simp_all add: n_def ls_def)
  have len: "length ps = 2 * n" using conformingD(1)[OF c] by (simp add: n_def ls_def)
  have w: "mapM (\<lambda>l. bind_err (nth_err ps l) (\<lambda>t. tf_reshape t [ls ! l * ls ! (l + 1)])) [0..<n]
           = Inr (map (\<lambda>l. Tensor [ls ! l * ls ! (l + 1)] (vals (ps ! l))) [0..<n])"
  proof (rule mapM_Inr)
    fix l assume "l \<in> set [0..<n]"
    then have l: "l < n" by simp
    then have "shape (ps ! l) = [ls ! l, ls ! (l + 1)]"
      using conformingD(2)[OF c, of l] by (simp add: n_def ls_def)
    then show "bind_err (nth_err ps l) (\<lambda>t. tf_reshape t [ls ! l * ls ! (l + 1)])
               = Inr (Tensor [ls ! l * ls ! (l + 1)] (vals (ps ! l)))"
      using l len by (simp add: nth_err_def tf_reshape_def)
  qed
  let ?ws = "map (\<lambda>l. Tensor [ls ! l * ls ! (l + 1)] (vals (ps ! l))) [0..<n]"
  have wsz: "map (\<lambda>u. hd (shape u)) ?ws = wsizes ls"
    by (rule nth_equalityI) (simp_all add: wsizes_nth n_def)
  have wv: "map vals ?ws = map vals (take n ps)"
    using len by (intro nth_equalityI) simp_all
  have wc: "tf_concat ?ws = Inr (Tensor [sum_list (wsizes ls)] (concat (map vals (take n ps))))"
    using n(1) by (subst tf_concat_vectors) (auto simp flip: wsz wv simp: comp_def)
  have b: "mapM (\<lambda>l. nth_err ps (l + length ls - 1)) [0..<n] = Inr (map (\<lambda>l. ps ! (l + n)) [0..<n])"
  proof (rule mapM_Inr)
    fix l assume "l \<in> set [0..<n]"
    then have l: "l < n" by simp
    moreover have "l + length ls - 1 = l + n" using n by simp
    ultimately show "nth_err ps (l + length ls - 1) = Inr (ps ! (l + n))"
      using len by (simp add: nth_err_def)
  qed
  have bs: "map (\<lambda>l. ps ! (l + n)) [0..<n] = drop n ps"
    using len by (intro nth_equalityI) (simp_all add: add.commute)
  have bshape: "\<exists>m. shape t = [m]" if "t \<in> set (drop n ps)" for t
  proof -
    from that obtain i where i: "i < length (drop n ps)" "t = drop n ps ! i"
      by (metis in_set_conv_nth)
    then have "i < n" using len by simp
    then have "shape (ps ! (i + n)) = [ls ! (i + 1)]"
      using conformingD(4)[OF c, of i] by (simp add: n_def ls_def)
    then show ?thesis using i len by (simp add: add.commute)
  qed
  have bsz: "map (\<lambda>u. hd (shape u)) (drop n ps) = tl ls"
  proof (rule nth_equalityI)
    show "length (map (\<lambda>u. hd (shape u)) (drop n ps)) = length (tl ls)"
      using len n by simp
  next
    fix i assume "i < length (map (\<lambda>u. hd (shape u)) (drop n ps))"
    then have i: "i < n" using len by simp
    then have "shape (ps ! (i + n)) = [ls ! (i + 1)]"
      using conformingD(4)[OF c, of i] by (simp add: n_def ls_def)
    then show "map (\<lambda>u. hd (shape u)) (drop n ps) ! i = tl ls ! i"
      using i len n by (simp add: add.commute nth_tl)
  qed
  have bc: "tf_concat (drop n ps) = Inr (Tensor [sum_list (tl ls)] (concat (map vals (drop n ps))))"
    using bshape n(1) len by (subst tf_concat_vectors) (auto simp: bsz)
  have fin: "tf_concat [Tensor [sum_list (wsizes ls)] (concat (map vals (take n ps))),
                        Tensor [sum_list (tl ls)] (concat (map vals (drop n ps)))]
             = Inr (Tensor [count_params ls] (concat (map vals ps)))"
  proof -
    have "concat (map vals (take n ps)) @ concat (map vals (drop n ps)) = concat (map vals ps)"
      by (metis append_take_drop_id concat_append map_append)
    then show ?thesis
      by (simp add: tf_concat_def count_params_split)
  qed
  show ?thesis
    unfolding flatten_def Let_def
    by (simp only: flip: ls_def, simp only: n w bind_err_simps wc b bs bc fin)
qed


lemma segment_ok:
  assumes "a \<le> b" "b \<le> n" "prod_list s = b - a"
  shows "segment (Tensor [n] xs) a b s = Inr (Tensor s (take (b - a) (drop a xs)))"
  using assms by (simp add: segment_def tf_slice_vector tf_reshape_def)


lemma segments_ok:
  assumes mono: "\<And>l. l < L \<Longrightarrow> off l \<le> off (Suc l)"
    and size: "\<And>l. l < L \<Longrightarrow> prod_list (shp l) = off (Suc l) - off l"
    and fit: "off L \<le> n"
  shows "mapM (\<lambda>l. segment (Tensor [n] xs) (off l) (off (Suc l)) (shp l)) [0..<L]
         = Inr (map (\<lambda>l. Tensor (shp l) (take (off (Suc l) - off l) (drop (off l) xs))) [0..<L])"
proof (rule mapM_Inr)
  fix l assume "l \<in> set [0..<L]"
  then have l: "l < L" by simp
  have "off (Suc l) \<le> off L"
    using l mono by (induction L) (auto simp: less_Suc_eq le_trans)
  then show "segment (Tensor [n] xs) (off l) (off (Suc l)) (shp l)
             = Inr (Tensor (shp l) (take (off (Suc l) - off l) (drop (off l) xs)))"
    using l mono size fit by (intro segment_ok) auto
qed


lemma winds_mono: "l < length ls - 1 \<Longrightarrow> winds_of ls ! l \<le> winds_of ls ! Suc l"
  by (simp add: winds_of_nth sum_take_Suc)

lemma winds_step:
  "l < length ls - 1 \<Longrightarrow> winds_of ls ! Suc l - winds_of ls ! l = ls ! l * ls ! (l + 1)"
  by (simp add: winds_of_nth sum_take_Suc wsizes_nth)

lemma binds_mono: "l < length ls - 1 \<Longrightarrow> binds_of ls ! l \<le> binds_of ls ! Suc l"
  by (simp add: binds_of_nth sum_take_Suc)

lemma binds_step:
  "l < length ls - 1 \<Longrightarrow> binds_of ls ! Suc l - binds_of ls ! l = ls ! (l + 1)"
  by (simp add: binds_of_nth sum_take_Suc nth_tl)

lemma winds_end: "L = length ls - 1 \<Longrightarrow> winds_of ls ! L = sum_list (wsizes ls)"
  by (simp add: winds_of_nth)



lemma binds_end: "L = length ls - 1 \<Longrightarrow> binds_of ls ! L = count_params ls"
  by (simp add: binds_of_nth count_params_split)

lemma unflatten_segments:
  "unflatten self t =
     bind_err (mapM (\<lambda>l. segment t (winds_of (layers self) ! l) (winds_of (layers self) ! Suc l)
                              [layers self ! l, layers self ! (l + 1)]) [0..<length (layers self) - 1])
       (\<lambda>weights.
     bind_err (mapM (\<lambda>l. segment t (binds_of (layers self) ! l) (binds_of (layers self) ! Suc l)
                              [layers self ! (l + 1)]) [0..<length (layers self) - 1])
       (\<lambda>biases. Inr (weights @ biases)))"
  by (simp add: unflatten_def Let_def segment_def)

lemma unflatten_fits:
  assumes "count_params (layers self) \<le> n"
  shows "unflatten self (Tensor [n] xs)
         = Inr (weight_segments (layers self) xs @ bias_segments (layers self) xs)"
proof -
  let ?ls = "layers self"
  have "sum_list (wsizes ?ls) \<le> n" using assms by (simp add: count_params_split)
  then have w: "mapM (\<lambda>l. segment (Tensor [n] xs) (winds_of ?ls ! l) (winds_of ?ls ! Suc l)
                   [?ls ! l, ?ls ! (l + 1)]) [0..<length ?ls - 1] = Inr (weight_segments ?ls xs)"
    unfolding weight_segments_def
    by (intro segments_ok) (simp_all add: winds_mono winds_step winds_end)
  have b: "mapM (\<lambda>l. segment (Tensor [n] xs) (binds_of ?ls ! l) (binds_of ?ls ! Suc l)
                   [?ls ! (l + 1)]) [0..<length ?ls - 1] = Inr (bias_segments ?ls xs)"
    unfolding bias_segments_def using assms
    by (intro segments_ok) (simp_all add: binds_mono binds_step binds_end)
  show ?thesis by (simp only: unflatten_segments w b bind_err_simps)
qed


lemma weight_segments_concat:
  assumes c: "conforming ls ps"
  shows "weight_segments ls (concat (map vals ps)) = take (length ls - 1) ps"
proof (rule nth_equalityI)
  show "length (weight_segments ls (concat (map vals ps))) = length (take (length ls - 1) ps)"
    using conformingD(1)[OF c] by (simp add: weight_segments_def)
next
  fix l assume "l < length (weight_segments ls (concat (map vals ps)))"
  then have l: "l < length ls - 1" by (simp add: weight_segments_def)
  have len: "length ps = 2 * (length ls - 1)" by (rule conformingD(1)[OF c])
  have lens: "map length (map vals ps) = wsizes ls @ tl ls"
    using conforming_lengths[OF c] by (simp add: comp_def)
  have "take l (map length (map vals ps)) = take l (wsizes ls)"
    using l by (simp only: lens) simp
  then have off: "winds_of ls ! l = sum_list (map length (take l (map vals ps)))"
    using l by (simp only: take_map) (simp add: winds_of_nth)
  have "winds_of ls ! Suc l - winds_of ls ! l = length (map vals ps ! l)"
    using l len conformingD(3)[OF c, of l] by (simp add: winds_step)
  then have sz: "winds_of ls ! Suc l - sum_list (map length (take l (map vals ps)))
                 = length (map vals ps ! l)"
    by (simp only: off)
  have "take (winds_of ls ! Suc l - winds_of ls ! l) (drop (winds_of ls ! l) (concat (map vals ps)))
        = map vals ps ! l"
    unfolding off sz using l len by (intro segment_of_concat) simp
  then show "weight_segments ls (concat (map vals ps)) ! l = take (length ls - 1) ps ! l"
    using l len conformingD(2)[OF c, of l]
    by (simp add: weight_segments_def tensor.expand)
qed

lemma bias_segments_concat:
  assumes c: "conforming ls ps"
  shows "bias_segments ls (concat (map vals ps)) = drop (length ls - 1) ps"
proof (rule nth_equalityI)
  show "length (bias_segments ls (concat (map vals ps))) = length (drop (length ls - 1) ps)"
    using conformingD(1)[OF c] by (simp add: bias_segments_def)
next
  fix l assume "l < length (bias_segments ls (concat (map vals ps)))"
  then have l: "l < length ls - 1" by (simp add: bias_segments_def)
  define n where "n = length ls - 1"
  have len: "length ps = 2 * n" using conformingD(1)[OF c] by (simp add: n_def)
  have lens: "map length (map vals ps) = wsizes ls @ tl ls"
    using conforming_lengths[OF c] by (simp add: comp_def)
  have "take (l + n) (map length (map vals ps)) = wsizes ls @ take l (tl ls)"
    by (simp only: lens) (simp add: n_def)
  then have off: "binds_of ls ! l = sum_list (map length (take (l + n) (map vals ps)))"
    using l by (simp only: take_map) (simp add: binds_of_nth)
  have "length (vals (ps ! (l + n))) = ls ! (l + 1)"
    using conformingD(5)[OF c, of l] l by (simp only: n_def)
  then have "binds_of ls ! Suc l - binds_of ls ! l = length (map vals ps ! (l + n))"
    using l len by (simp add: binds_step n_def)
  then have sz: "binds_of ls ! Suc l - sum_list (map length (take (l + n) (map vals ps)))
                 = length (map vals ps ! (l + n))"
    by (simp only: off)
  have "take (binds_of ls ! Suc l - binds_of ls ! l) (drop (binds_of ls ! l) (concat (map vals ps)))
        = map vals ps ! (l + n)"
    unfolding off sz using l len by (intro segment_of_concat) (simp add: n_def)
  moreover have "shape (ps ! (l + n)) = [ls ! (l + 1)]"
    using conformingD(4)[OF c, of l] l by (simp only: n_def)
  moreover have "drop (length ls - 1) ps ! l = ps ! (l + n)"
    using l len by (simp add: n_def add.commute)
  moreover have "map vals ps ! (l + n) = vals (ps ! (l + n))"
    using l len by (simp add: n_def)
  moreover have "bias_segments ls (concat (map vals ps)) ! l
                 = Tensor [ls ! (l + 1)] (take (binds_of ls ! Suc l - binds_of ls ! l)
                     (drop (binds_of ls ! l) (concat (map vals ps))))"
    using l by (simp add: bias_segments_def)
  ultimately show "bias_segments ls (concat (map vals ps)) ! l = drop (length ls - 1) ps ! l"
    by (simp add: tensor.expand)
qed








lemma tf_gradients_length [simp]: "length (tf_gradients tf ys ps) = length ps"
  by (simp add: tf_gradients_def)














lemma conf11: "conforming (layers estimator_11) (params estimator_11)"
  by (simp add: estimator_11_def init_def conforming_def wf_tensor_def)




































section \<open>The codec is a bijection on conforming parameters\<close>

text \<open>
  C1. For a schema with at least two layer widths and every parameter list that
  conforms to it, \<open>flatten\<close> succeeds and \<open>unflatten\<close> of its result succeeds and
  returns the list itself: the same tensors, with the same shapes and entries.
\<close>

theorem unflatten_flatten_roundtrip:
  assumes "conforming (layers self) ps" and "2 \<le> length (layers self)"
  shows "bind_err (flatten self ps) (unflatten self) = Inr ps"
proof -
  have "flatten self ps = Inr (Tensor [count_params (layers self)] (concat (map vals ps)))"
    using assms by (rule flatten_conforming)
  moreover have "unflatten self (Tensor [count_params (layers self)] (concat (map vals ps)))
                 = Inr (weight_segments (layers self) (concat (map vals ps))
                        @ bias_segments (layers self) (concat (map vals ps)))"
    by (rule unflatten_fits) simp
  ultimately show ?thesis
    by (simp add: weight_segments_concat[OF assms(1)] bias_segments_concat[OF assms(1)])
qed

theorem unflatten_flatten_roundtrip_witness:
  "conforming (layers estimator_231) params_231 \<and> 2 \<le> length (layers estimator_231)
   \<and> bind_err (flatten estimator_231 params_231) (unflatten estimator_231) = Inr params_231"
proof -
  have c: "conforming (layers estimator_231) params_231"
    by (simp add: estimator_231_def init_def params_231_def conforming_def wf_tensor_def upt_rec)
  have l: "2 \<le> length (layers estimator_231)"
    by (simp add: estimator_231_def init_def)
  show ?thesis
    by (intro conjI c l unflatten_flatten_roundtrip[OF c l])
qed

section \<open>The two flatten variants\<close>

text \<open>
  C9. \<open>flatten_v2\<close> reads the entries \<open>0 .. len(layers) - 1\<close> of the parameter
  list. On the schema \<open>[2, 3, 1]\<close> with its four tensors and thirteen entries it
  returns the twelve entries of the first three tensors and leaves the last bias
  out.
\<close>

theorem flatten_v2_omits_last_bias:
  "flatten_v2 estimator_231 params_231
     = Inr (Tensor [12] [1, 2, 3, 4, 5, 6, 7, 8, 9, 10, 11, 12])
   \<and> concat (map vals params_231) = [1, 2, 3, 4, 5, 6, 7, 8, 9, 10, 11, 12, 13]"
  by (simp add: flatten_v2_def estimator_231_def init_def params_231_def upt_rec nth_err_def
      tf_reshape_flat_def tf_concat_def)

text \<open>
  C10. For a schema with exactly two layer widths and a conforming parameter list
  \<open>[W, b]\<close>, \<open>flatten\<close> and \<open>flatten_v2\<close> return the same vector: the entries of
  \<open>W\<close> followed by the entries of \<open>b\<close>.
\<close>

theorem flatten_v2_single_layer:
  assumes two: "length (layers self) = 2" and c: "conforming (layers self) ps"
  shows "flatten_v2 self ps = flatten self ps
         \<and> flatten self ps = Inr (Tensor [count_params (layers self)] (vals (ps ! 0) @ vals (ps ! 1)))"
proof -
  obtain a b where ls: "layers self = [a, b]"
    using two by (metis (no_types, opaque_lifting) One_nat_def Suc_1 length_0_conv length_Suc_conv)
  have len: "length ps = 2" using conformingD(1)[OF c] two by simp
  then obtain W B where ps: "ps = [W, B]"
    by (metis (no_types, opaque_lifting) One_nat_def Suc_1 length_0_conv length_Suc_conv)
  have sW: "shape W = [a, b]" using conformingD(2)[OF c, of 0] ls ps by simp
  have sB: "shape B = [b]" using conformingD(4)[OF c, of 0] ls ps by simp
  have f: "flatten self ps = Inr (Tensor [count_params (layers self)] (concat (map vals ps)))"
    using c two by (intro flatten_conforming) simp_all
  have cp: "count_params [a, b] = a * b + b" by (simp add: count_params_def)
  have "flatten_v2 self ps = Inr (Tensor [a * b + b] (vals W @ vals B))"
    by (simp add: flatten_v2_def ls ps upt_rec nth_err_def tf_reshape_flat_def sW sB tf_concat_def)
  then show ?thesis using f by (simp add: ls ps cp)
qed

theorem flatten_v2_single_layer_witness:
  "flatten_v2 estimator_11 (params estimator_11) = flatten estimator_11 (params estimator_11)
   \<and> flatten estimator_11 (params estimator_11) = Inr (Tensor [2] [var_w, var_b])"
proof -
  have two: "length (layers estimator_11) = 2"
    by (simp add: estimator_11_def init_def)
  have "count_params (layers estimator_11) = 2"
    by (simp add: estimator_11_def init_def count_params_def)
  then show ?thesis
    using flatten_v2_single_layer[OF two conf11]
    by (simp add: estimator_11_def init_def)
qed

section \<open>The Hessian-vector product\<close>



section \<open>The full Hessian\<close>



section \<open>What a wrong length does\<close>




section \<open>The OPG approximation\<close>





text \<open>
  C5. On the schema \<open>[2, 3, 1]\<close> the parameter list has four tensors; the copy that
  \<open>get_G_op\<close> makes for an example holds the first three of them, and the call
  ends in an IndexError.
\<close>

theorem get_G_op_copies_prefix:
  "ex_params_of opg_estimator_231
     = Inr [[Tensor [2, 3] [1, 2, 3, 4, 5, 6], Tensor [3, 1] [7, 8, 9], Tensor [3] [10, 11, 12]]]
   \<and> length (params opg_estimator_231) = 4
   \<and> get_G_op scaling_engine opg_estimator_231 = Inl IndexError"
  by (simp add: get_G_op_def ex_grads_of_def ex_params_of_def opg_estimator_231_def init_def
      upt_rec nth_err_def tf_identity_def tf_split_def flatten_def tf_gradients_def
      tf_reshape_def tf_concat_def scaling_engine_def)



end
